theory Spec2Isabelle
  imports Main "HOL-Library.Word" "HOL-Library.List_Lexorder" "HOL-Library.Multiset"
begin

section \<open>Strings\<close>

text \<open>
  A JavaScript string is a sequence of 16-bit code units; \<open>length\<close>, \<open>substring\<close>,
  \<open>endsWith\<close> and the default comparison of \<open>Array.prototype.sort\<close> all work on code
  units. \<open>js\<close> writes a literal.
\<close>

type_synonym code_unit = "16 word"
type_synonym jsstring = "code_unit list"

definition js :: "string \<Rightarrow> jsstring" where
  "js s = map of_char s"

definition LF :: code_unit where
  "LF = 0x0A"

text \<open>
  \<open>String.prototype.substring(a, b)\<close> on non-negative integers: both arguments are clamped
  to the length and swapped when the first is the larger. With the second argument
  omitted it is the length.
\<close>

definition substring :: "jsstring \<Rightarrow> nat \<Rightarrow> nat \<Rightarrow> jsstring" where
  "substring s a b =
     (let a' = min a (length s); b' = min b (length s);
          from = min a' b'; to = max a' b'
      in take (to - from) (drop from s))"

definition substring_from :: "jsstring \<Rightarrow> nat \<Rightarrow> jsstring" where
  "substring_from s a = substring s a (length s)"

definition endsWith :: "jsstring \<Rightarrow> jsstring \<Rightarrow> bool" where
  "endsWith s t = (length t \<le> length s \<and> drop (length s - length t) s = t)"

section \<open>The editor's text operations (MarkdownEditor)\<close>

text \<open>
  The textarea element is read for its selection only; \<open>textareaRef.current\<close> is null
  until the element is mounted. An operation calls \<open>onChange(newText)\<close> and then
  \<open>setSelectionRange(p, q)\<close>; the model returns both, and \<open>None\<close> where the source
  returns before doing either.
\<close>

record textarea =
  selectionStart :: nat
  selectionEnd :: nat

record edit =
  newText :: jsstring
  selectionRange :: "nat \<times> nat"

definition insertAtCursor ::
  "jsstring \<Rightarrow> textarea option \<Rightarrow> jsstring \<Rightarrow> jsstring \<Rightarrow> jsstring \<Rightarrow> edit option" where
  "insertAtCursor doc textareaRef prefix suffix defaultText =
     (case textareaRef of
        None \<Rightarrow> None
      | Some ta \<Rightarrow>
          (let start = selectionStart ta;
               stop = selectionEnd ta;
               selectedText = substring doc start stop;
               textToInsert = (if selectedText \<noteq> [] then selectedText else defaultText);
               before = substring doc 0 start;
               after = substring_from doc stop;
               newText = before @ prefix @ textToInsert @ suffix @ after;
               newCursorPos =
                 (if selectedText \<noteq> []
                  then start + length prefix + length selectedText + length suffix
                  else start + length prefix)
           in Some \<lparr>newText = newText, selectionRange = (newCursorPos, newCursorPos)\<rparr>))"

definition insertOnNewLine :: "jsstring \<Rightarrow> textarea option \<Rightarrow> jsstring \<Rightarrow> edit option" where
  "insertOnNewLine doc textareaRef snippet =
     (case textareaRef of
        None \<Rightarrow> None
      | Some ta \<Rightarrow>
          (let start = selectionStart ta;
               before = substring doc 0 start;
               after = substring_from doc start;
               needsNewline = (length before > 0 \<and> \<not> endsWith before [LF]);
               prefix = (if needsNewline then [LF] else []);
               newText = before @ prefix @ snippet @ after;
               newCursorPos = start + length prefix + length snippet
           in Some \<lparr>newText = newText, selectionRange = (newCursorPos, newCursorPos)\<rparr>))"

text \<open>The toolbar's table of actions.\<close>

datatype action =
  Bold | Italic | H1 | H2 | H3 | BulletList | NumberedList | Quote
  | InlineCode | CodeBlock | Link | Image | HorizontalRule

fun actions :: "action \<Rightarrow> jsstring \<Rightarrow> textarea option \<Rightarrow> edit option" where
  "actions Bold doc ta = insertAtCursor doc ta (js ''**'') (js ''**'') (js ''bold text'')"
| "actions Italic doc ta = insertAtCursor doc ta (js ''*'') (js ''*'') (js ''italic text'')"
| "actions H1 doc ta = insertOnNewLine doc ta (js ''# '')"
| "actions H2 doc ta = insertOnNewLine doc ta (js ''## '')"
| "actions H3 doc ta = insertOnNewLine doc ta (js ''### '')"
| "actions BulletList doc ta = insertOnNewLine doc ta (js ''- '')"
| "actions NumberedList doc ta = insertOnNewLine doc ta (js ''1. '')"
| "actions Quote doc ta = insertOnNewLine doc ta (js ''> '')"
| "actions InlineCode doc ta = insertAtCursor doc ta (js ''`'') (js ''`'') (js ''code'')"
| "actions CodeBlock doc ta = insertOnNewLine doc ta (js ''```'' @ [LF, LF] @ js ''```'')"
| "actions Link doc ta = insertAtCursor doc ta (js ''['') (js ''](url)'') (js ''link text'')"
| "actions Image doc ta = insertAtCursor doc ta (js ''!['') (js ''](url)'') (js ''alt text'')"
| "actions HorizontalRule doc ta = insertOnNewLine doc ta ([LF] @ js ''---'' @ [LF])"

section \<open>JSON values\<close>

text \<open>
  The values of JSON. A number is kept as its text: nothing in this program computes
  with one. An object is its list of members in the order of creation; no member name
  here is an array index, so that is also the order \<open>JSON.stringify\<close> writes them in.
\<close>

datatype json =
    JNull
  | JBool bool
  | JNumber jsstring
  | JString jsstring
  | JArray "json list"
  | JObject "(jsstring \<times> json) list"

definition QUOTE :: code_unit where "QUOTE = 0x22"
definition BACKSLASH :: code_unit where "BACKSLASH = 0x5C"

definition hexdigit :: "nat \<Rightarrow> code_unit" where
  "hexdigit n = js ''0123456789abcdef'' ! (n mod 16)"

definition UnicodeEscape :: "code_unit \<Rightarrow> jsstring" where
  "UnicodeEscape c =
     (let n = unat c
      in [BACKSLASH, of_char CHR ''u'',
          hexdigit (n div 4096), hexdigit (n div 256), hexdigit (n div 16), hexdigit n])"

definition is_high_surrogate :: "code_unit \<Rightarrow> bool" where
  "is_high_surrogate c = (0xD800 \<le> c \<and> c \<le> 0xDBFF)"

definition is_low_surrogate :: "code_unit \<Rightarrow> bool" where
  "is_low_surrogate c = (0xDC00 \<le> c \<and> c \<le> 0xDFFF)"

definition quote_unit :: "code_unit \<Rightarrow> jsstring" where
  "quote_unit c =
     (if c = 0x08 then [BACKSLASH, of_char CHR ''b'']
      else if c = 0x09 then [BACKSLASH, of_char CHR ''t'']
      else if c = 0x0A then [BACKSLASH, of_char CHR ''n'']
      else if c = 0x0C then [BACKSLASH, of_char CHR ''f'']
      else if c = 0x0D then [BACKSLASH, of_char CHR ''r'']
      else if c = QUOTE then [BACKSLASH, QUOTE]
      else if c = BACKSLASH then [BACKSLASH, BACKSLASH]
      else if c < 0x20 \<or> is_high_surrogate c \<or> is_low_surrogate c then UnicodeEscape c
      else [c])"

fun quote_units :: "jsstring \<Rightarrow> jsstring" where
  "quote_units [] = []"
| "quote_units [c] = quote_unit c"
| "quote_units (c # d # ds) =
     (if is_high_surrogate c \<and> is_low_surrogate d then c # d # quote_units ds
      else quote_unit c @ quote_units (d # ds))"

definition QuoteJSONString :: "jsstring \<Rightarrow> jsstring" where
  "QuoteJSONString s = [QUOTE] @ quote_units s @ [QUOTE]"

fun join_comma :: "jsstring list \<Rightarrow> jsstring" where
  "join_comma [] = []"
| "join_comma [x] = x"
| "join_comma (x # y # ys) = x @ js '','' @ join_comma (y # ys)"

fun stringify :: "json \<Rightarrow> jsstring" where
  "stringify JNull = js ''null''"
| "stringify (JBool b) = (if b then js ''true'' else js ''false'')"
| "stringify (JNumber n) = n"
| "stringify (JString s) = QuoteJSONString s"
| "stringify (JArray xs) = js ''['' @ join_comma (map stringify xs) @ js '']''"
| "stringify (JObject ms) =
     js ''{'' @ join_comma (map (\<lambda>(k, v). QuoteJSONString k @ js '':'' @ stringify v) ms) @ js ''}''"

section \<open>JSON.parse\<close>

text \<open>
  \<open>JSON.parse\<close> as an automaton that reads the text one code unit at a time, with a
  stack of the arrays and objects that are still open. \<open>None\<close> is the SyntaxError. A
  member that repeats a name replaces the earlier value, as the assignment to an
  existing property does.
\<close>

datatype frame =
    ArrayFrame "json list"
  | ObjectFrame "(jsstring \<times> json) list" "jsstring option"

datatype numstate = NMinus | NZero | NInt | NDot | NFrac | NExp | NSign | NExpDigits

datatype mode =
    Value
  | FirstElem
  | FirstKey
  | Key
  | Colon
  | After
  | Done json
  | Str bool jsstring
  | Esc bool jsstring
  | Hex bool jsstring "nat list"
  | Lit jsstring json
  | Num numstate jsstring

type_synonym pstate = "mode \<times> frame list"

definition is_ws :: "code_unit \<Rightarrow> bool" where
  "is_ws c = (c = 0x20 \<or> c = 0x09 \<or> c = 0x0A \<or> c = 0x0D)"

definition is_digit :: "code_unit \<Rightarrow> bool" where
  "is_digit c = (0x30 \<le> c \<and> c \<le> 0x39)"

definition hexval :: "code_unit \<Rightarrow> nat option" where
  "hexval c =
     (if 0x30 \<le> c \<and> c \<le> 0x39 then Some (unat c - 0x30)
      else if 0x61 \<le> c \<and> c \<le> 0x66 then Some (unat c - 0x61 + 10)
      else if 0x41 \<le> c \<and> c \<le> 0x46 then Some (unat c - 0x41 + 10)
      else None)"

fun set_member :: "jsstring \<Rightarrow> json \<Rightarrow> (jsstring \<times> json) list \<Rightarrow> (jsstring \<times> json) list" where
  "set_member k v [] = [(k, v)]"
| "set_member k v ((k', v') # ms) =
     (if k' = k then (k, v) # ms else (k', v') # set_member k v ms)"

fun put :: "json \<Rightarrow> frame list \<Rightarrow> pstate option" where
  "put v [] = Some (Done v, [])"
| "put v (ArrayFrame xs # st) = Some (After, ArrayFrame (xs @ [v]) # st)"
| "put v (ObjectFrame ms (Some k) # st) = Some (After, ObjectFrame (set_member k v ms) None # st)"
| "put v (ObjectFrame ms None # st) = None"

definition start_value :: "code_unit \<Rightarrow> frame list \<Rightarrow> pstate option" where
  "start_value c st =
     (if c = of_char CHR ''{'' then Some (FirstKey, ObjectFrame [] None # st)
      else if c = of_char CHR ''['' then Some (FirstElem, ArrayFrame [] # st)
      else if c = QUOTE then Some (Str False [], st)
      else if c = of_char CHR ''t'' then Some (Lit (js ''rue'') (JBool True), st)
      else if c = of_char CHR ''f'' then Some (Lit (js ''alse'') (JBool False), st)
      else if c = of_char CHR ''n'' then Some (Lit (js ''ull'') JNull, st)
      else if c = of_char CHR ''-'' then Some (Num NMinus [c], st)
      else if c = of_char CHR ''0'' then Some (Num NZero [c], st)
      else if is_digit c then Some (Num NInt [c], st)
      else None)"

fun close_frame :: "code_unit \<Rightarrow> frame list \<Rightarrow> pstate option" where
  "close_frame c (ArrayFrame xs # st) = (if c = of_char CHR '']'' then put (JArray xs) st else None)"
| "close_frame c (ObjectFrame ms None # st) = (if c = of_char CHR ''}'' then put (JObject ms) st else None)"
| "close_frame c _ = None"

fun after_value :: "pstate \<Rightarrow> code_unit \<Rightarrow> pstate option" where
  "after_value (Done v, st) c = (if is_ws c then Some (Done v, st) else None)"
| "after_value (After, st) c =
     (if is_ws c then Some (After, st)
      else if c = of_char CHR '','' then
        (case st of
           ArrayFrame xs # _ \<Rightarrow> Some (Value, st)
         | ObjectFrame ms None # _ \<Rightarrow> Some (Key, st)
         | _ \<Rightarrow> None)
      else close_frame c st)"
| "after_value _ c = None"

fun num_next :: "numstate \<Rightarrow> code_unit \<Rightarrow> numstate option" where
  "num_next NMinus c =
     (if c = of_char CHR ''0'' then Some NZero else if is_digit c then Some NInt else None)"
| "num_next NZero c =
     (if c = of_char CHR ''.'' then Some NDot
      else if c = of_char CHR ''e'' \<or> c = of_char CHR ''E'' then Some NExp else None)"
| "num_next NInt c =
     (if is_digit c then Some NInt
      else if c = of_char CHR ''.'' then Some NDot
      else if c = of_char CHR ''e'' \<or> c = of_char CHR ''E'' then Some NExp else None)"
| "num_next NDot c = (if is_digit c then Some NFrac else None)"
| "num_next NFrac c =
     (if is_digit c then Some NFrac
      else if c = of_char CHR ''e'' \<or> c = of_char CHR ''E'' then Some NExp else None)"
| "num_next NExp c =
     (if c = of_char CHR ''+'' \<or> c = of_char CHR ''-'' then Some NSign
      else if is_digit c then Some NExpDigits else None)"
| "num_next NSign c = (if is_digit c then Some NExpDigits else None)"
| "num_next NExpDigits c = (if is_digit c then Some NExpDigits else None)"

fun num_complete :: "numstate \<Rightarrow> bool" where
  "num_complete NZero = True"
| "num_complete NInt = True"
| "num_complete NFrac = True"
| "num_complete NExpDigits = True"
| "num_complete _ = False"

definition end_string :: "bool \<Rightarrow> jsstring \<Rightarrow> frame list \<Rightarrow> pstate option" where
  "end_string is_key s st =
     (if is_key then
        (case st of
           ObjectFrame ms None # rest \<Rightarrow> Some (Colon, ObjectFrame ms (Some s) # rest)
         | _ \<Rightarrow> None)
      else put (JString s) st)"

definition escape_unit :: "code_unit \<Rightarrow> code_unit option" where
  "escape_unit c =
     (if c = QUOTE then Some QUOTE
      else if c = BACKSLASH then Some BACKSLASH
      else if c = of_char CHR ''/'' then Some (of_char CHR ''/'')
      else if c = of_char CHR ''b'' then Some 0x08
      else if c = of_char CHR ''f'' then Some 0x0C
      else if c = of_char CHR ''n'' then Some 0x0A
      else if c = of_char CHR ''r'' then Some 0x0D
      else if c = of_char CHR ''t'' then Some 0x09
      else None)"

fun step :: "pstate \<Rightarrow> code_unit \<Rightarrow> pstate option" where
  "step (Value, st) c = (if is_ws c then Some (Value, st) else start_value c st)"
| "step (FirstElem, st) c =
     (if is_ws c then Some (FirstElem, st)
      else if c = of_char CHR '']'' then close_frame c st
      else start_value c st)"
| "step (FirstKey, st) c =
     (if is_ws c then Some (FirstKey, st)
      else if c = of_char CHR ''}'' then close_frame c st
      else if c = QUOTE then Some (Str True [], st)
      else None)"
| "step (Key, st) c =
     (if is_ws c then Some (Key, st)
      else if c = QUOTE then Some (Str True [], st)
      else None)"
| "step (Colon, st) c =
     (if is_ws c then Some (Colon, st)
      else if c = of_char CHR '':'' then Some (Value, st)
      else None)"
| "step (After, st) c = after_value (After, st) c"
| "step (Done v, st) c = after_value (Done v, st) c"
| "step (Str k s, st) c =
     (if c = QUOTE then end_string k s st
      else if c = BACKSLASH then Some (Esc k s, st)
      else if c < 0x20 then None
      else Some (Str k (s @ [c]), st))"
| "step (Esc k s, st) c =
     (if c = of_char CHR ''u'' then Some (Hex k s [], st)
      else (case escape_unit c of
              Some u \<Rightarrow> Some (Str k (s @ [u]), st)
            | None \<Rightarrow> None))"
| "step (Hex k s ds, st) c =
     (case hexval c of
        None \<Rightarrow> None
      | Some d \<Rightarrow>
          (if length ds = 3
           then Some (Str k (s @ [of_nat (foldl (\<lambda>n x. 16 * n + x) 0 (ds @ [d]))]), st)
           else Some (Hex k s (ds @ [d]), st)))"
| "step (Lit rest v, st) c =
     (case rest of
        [] \<Rightarrow> None
      | r # rs \<Rightarrow>
          (if c \<noteq> r then None
           else if rs = [] then put v st
           else Some (Lit rs v, st)))"
| "step (Num ns s, st) c =
     (case num_next ns c of
        Some ns' \<Rightarrow> Some (Num ns' (s @ [c]), st)
      | None \<Rightarrow>
          (if num_complete ns
           then (case put (JNumber s) st of
                   None \<Rightarrow> None
                 | Some p \<Rightarrow> after_value p c)
           else None))"

fun run :: "pstate \<Rightarrow> jsstring \<Rightarrow> pstate option" where
  "run p [] = Some p"
| "run p (c # cs) = (case step p c of None \<Rightarrow> None | Some p' \<Rightarrow> run p' cs)"

fun finish :: "pstate \<Rightarrow> json option" where
  "finish (Done v, st) = Some v"
| "finish (Num ns s, st) = (if num_complete ns \<and> st = [] then Some (JNumber s) else None)"
| "finish _ = None"

definition JSON_parse :: "jsstring \<Rightarrow> json option" where
  "JSON_parse s = (case run (Value, []) s of None \<Rightarrow> None | Some p \<Rightarrow> finish p)"

section \<open>The draft hook (useLocalDraft)\<close>

text \<open>
  \<open>DraftFields\<close> is what \<open>getData()\<close> returns, \<open>DraftData\<close> adds \<open>savedAt\<close>. A function
  on \<open>'a DraftFields_scheme\<close> accepts both, as the structural typing of the source does.
\<close>

record DraftFields =
  title :: jsstring
  slug :: jsstring
  description :: jsstring
  date :: jsstring
  draft :: bool
  tags :: "jsstring list"
  content :: jsstring

record DraftData = DraftFields +
  savedAt :: jsstring

definition dataToHash :: "'a DraftFields_scheme \<Rightarrow> jsstring" where
  "dataToHash data =
     stringify (JObject
       [(js ''title'', JString (title data)),
        (js ''slug'', JString (slug data)),
        (js ''description'', JString (description data)),
        (js ''date'', JString (date data)),
        (js ''draft'', JBool (draft data)),
        (js ''tags'', JArray (map JString (sort (tags data)))),
        (js ''content'', JString (content data))])"

text \<open>
  The object \<open>{...data, savedAt: ...}\<close> as the JSON value that \<open>JSON.stringify\<close> sees:
  the properties of \<open>data\<close> in the order \<open>getData\<close> creates them, then \<open>savedAt\<close>. The
  tags are stored in the order they have in \<open>data\<close>.
\<close>

definition draftData :: "DraftFields \<Rightarrow> jsstring \<Rightarrow> DraftData" where
  "draftData data isoNow = DraftFields.extend data (DraftData.fields isoNow)"

definition DraftData_json :: "DraftData \<Rightarrow> json" where
  "DraftData_json d =
     JObject
       [(js ''title'', JString (title d)),
        (js ''slug'', JString (slug d)),
        (js ''description'', JString (description d)),
        (js ''date'', JString (date d)),
        (js ''draft'', JBool (draft d)),
        (js ''tags'', JArray (map JString (tags d))),
        (js ''content'', JString (content d)),
        (js ''savedAt'', JString (savedAt d))]"

datatype DraftStatus = Idle | Saving | Saved

text \<open>
  A \<open>Date\<close> object is kept as what it was built from: \<open>new Date()\<close> at a reading of the
  clock (milliseconds since the epoch), or \<open>new Date(v)\<close> for a property value \<open>v\<close>
  (\<open>None\<close>: the property is undefined).
\<close>

datatype jsdate = DateNow nat | DateOf "json option"

text \<open>
  The state of one mounted hook together with the browser's \<open>localStorage\<close>.
  \<open>setItemLog\<close> is not in the source: it records every call of \<open>localStorage.setItem\<close>
  of this mount, oldest first, so that writes can be counted.
\<close>

record draft_state =
  localStorage :: "jsstring \<rightharpoonup> jsstring"
  setItemLog :: "(jsstring \<times> jsstring) list"
  status :: DraftStatus
  lastSaved :: "jsdate option"
  hasUnsavedChanges :: bool
  hasDraft :: bool
  isHydrated :: bool
  lastSavedHashRef :: "jsstring option"

definition storageKey :: "jsstring \<Rightarrow> jsstring" where
  "storageKey key = js ''inkwell-draft-'' @ key"

definition useLocalDraft_init :: "(jsstring \<rightharpoonup> jsstring) \<Rightarrow> draft_state" where
  "useLocalDraft_init store =
     \<lparr>localStorage = store, setItemLog = [], status = Idle, lastSaved = None,
      hasUnsavedChanges = False, hasDraft = False, isHydrated = False,
      lastSavedHashRef = None\<rparr>"

text \<open>
  Reading a property that no prototype defines: the member of an object, undefined
  (\<open>None\<close>) on any other non-null value.
\<close>

fun get_prop :: "json \<Rightarrow> jsstring \<Rightarrow> json option" where
  "get_prop (JObject ms) k = map_of ms k"
| "get_prop _ k = None"

text \<open>
  The effect that runs after mount. An empty string is falsy. \<open>JSON.parse\<close> throwing is
  caught; so is the TypeError of \<open>draft.savedAt\<close> when \<open>draft\<close> is null, which is raised
  after \<open>setHasDraft(true)\<close>.
\<close>

definition hydrate :: "jsstring \<Rightarrow> draft_state \<Rightarrow> draft_state" where
  "hydrate key s =
     (let s' =
        (case localStorage s (storageKey key) of
           None \<Rightarrow> s
         | Some saved \<Rightarrow>
             (if saved = [] then s
              else (case JSON_parse saved of
                      None \<Rightarrow> s
                    | Some d \<Rightarrow>
                        (if d = JNull then s\<lparr>hasDraft := True\<rparr>
                         else s\<lparr>hasDraft := True,
                                lastSaved := Some (DateOf (get_prop d (js ''savedAt'')))\<rparr>))))
      in s'\<lparr>isHydrated := True\<rparr>)"

text \<open>
  \<open>getData()\<close> is an input of each call: \<open>None\<close> is null. \<open>checkForChanges\<close> returns its
  result and the new state.
\<close>

definition checkForChanges :: "DraftFields option \<Rightarrow> draft_state \<Rightarrow> bool \<times> draft_state" where
  "checkForChanges getData s =
     (case getData of
        None \<Rightarrow> (False, s)
      | Some data \<Rightarrow>
          (case lastSavedHashRef s of
             None \<Rightarrow> (False, s\<lparr>lastSavedHashRef := Some (dataToHash data)\<rparr>)
           | Some lastHash \<Rightarrow>
               (let currentHash = dataToHash data;
                    hasChanges = (lastHash \<noteq> currentHash)
                in (hasChanges, s\<lparr>hasUnsavedChanges := hasChanges\<rparr>))))"

text \<open>
  \<open>localStorage.setItem\<close> is taken to succeed.
  \<open>isoNow\<close> is the value of \<open>new Date().toISOString()\<close> and \<open>now\<close> the reading of the
  clock by the later \<open>new Date()\<close>. The pass is synchronous, so of the two \<open>setStatus\<close>
  calls only the last is ever rendered.
\<close>

definition saveDraft :: "jsstring \<Rightarrow> DraftFields option \<Rightarrow> jsstring \<Rightarrow> nat \<Rightarrow> draft_state \<Rightarrow> draft_state" where
  "saveDraft key getData isoNow now s =
     (case getData of
        None \<Rightarrow> s
      | Some data \<Rightarrow>
          (let currentHash = dataToHash data
           in if lastSavedHashRef s = Some currentHash then s
              else
                (let item = stringify (DraftData_json (draftData data isoNow))
                 in s\<lparr>localStorage := (localStorage s)(storageKey key \<mapsto> item),
                       setItemLog := setItemLog s @ [(storageKey key, item)],
                       lastSavedHashRef := Some currentHash,
                       lastSaved := Some (DateNow now),
                       status := Saved,
                       hasUnsavedChanges := False,
                       hasDraft := True\<rparr>)))"

text \<open>\<open>loadDraft\<close> returns a value or null; \<open>JNull\<close> is null.\<close>

definition loadDraft :: "jsstring \<Rightarrow> draft_state \<Rightarrow> json" where
  "loadDraft key s =
     (case localStorage s (storageKey key) of
        None \<Rightarrow> JNull
      | Some saved \<Rightarrow>
          (if saved = [] then JNull
           else (case JSON_parse saved of None \<Rightarrow> JNull | Some d \<Rightarrow> d)))"

definition clearDraft :: "jsstring \<Rightarrow> draft_state \<Rightarrow> draft_state" where
  "clearDraft key s =
     s\<lparr>localStorage := (localStorage s)(storageKey key := None),
       hasDraft := False,
       lastSaved := None\<rparr>"

text \<open>The two interval callbacks.\<close>

definition changeCheckInterval :: "DraftFields option \<Rightarrow> draft_state \<Rightarrow> draft_state" where
  "changeCheckInterval getData s = snd (checkForChanges getData s)"

text \<open>A run of dirty-check ticks, each with what \<open>getData()\<close> returns at that tick.\<close>

fun dirty_checks :: "DraftFields option list \<Rightarrow> draft_state \<Rightarrow> draft_state" where
  "dirty_checks [] s = s"
| "dirty_checks (getData # rest) s = dirty_checks rest (changeCheckInterval getData s)"

definition autoSaveInterval ::
  "jsstring \<Rightarrow> DraftFields option \<Rightarrow> jsstring \<Rightarrow> nat \<Rightarrow> draft_state \<Rightarrow> draft_state" where
  "autoSaveInterval key getData isoNow now s =
     (let (hasChanges, s') = checkForChanges getData s
      in if hasChanges then saveDraft key getData isoNow now s' else s')"

section \<open>The pages and their recovery dialog\<close>

datatype page = NewPostPage | EditPostPage jsstring

fun draft_key :: "page \<Rightarrow> jsstring" where
  "draft_key NewPostPage = js ''new-post''"
| "draft_key (EditPostPage postSlug) = js ''edit-'' @ postSlug"

text \<open>
  The part of a page's state that the dialog depends on. \<open>post\<close> is the data of the
  query of the edit page: \<open>None\<close> while it is undefined, and a number that tells one
  delivered object from the next.
\<close>

record page_state =
  hook :: draft_state
  showDraftDialog :: bool
  post :: "nat option"

datatype event =
    PostLoaded nat
  | DirtyTick "DraftFields option"
  | PersistTick "DraftFields option" jsstring nat
  | RestoreDraft
  | DiscardDraft
  | Committed
  | OpenChange bool

text \<open>
  The dialog's effect, its dependency array, and React's rule: after a render the
  effect runs when a dependency differs from its value at the previous render.
\<close>

fun dialog_deps :: "page \<Rightarrow> page_state \<Rightarrow> bool \<times> bool \<times> nat option" where
  "dialog_deps NewPostPage p = (isHydrated (hook p), hasDraft (hook p), None)"
| "dialog_deps (EditPostPage postSlug) p = (isHydrated (hook p), hasDraft (hook p), post p)"

fun dialog_effect :: "page \<Rightarrow> page_state \<Rightarrow> page_state" where
  "dialog_effect NewPostPage p =
     (if isHydrated (hook p) \<and> hasDraft (hook p) then p\<lparr>showDraftDialog := True\<rparr> else p)"
| "dialog_effect (EditPostPage postSlug) p =
     (if isHydrated (hook p) \<and> hasDraft (hook p) \<and> post p \<noteq> None
      then p\<lparr>showDraftDialog := True\<rparr> else p)"

definition commit :: "page \<Rightarrow> page_state \<Rightarrow> page_state \<Rightarrow> page_state" where
  "commit pg old new = (if dialog_deps pg new \<noteq> dialog_deps pg old then dialog_effect pg new else new)"

text \<open>
  Mounting: the first render has the initial state, in which the dialog's effect does
  nothing; the hook's effect hydrates, and the render that follows runs the dialog's
  effect again.
\<close>

definition mount :: "page \<Rightarrow> (jsstring \<rightharpoonup> jsstring) \<Rightarrow> page_state" where
  "mount pg store =
     (let p0 = dialog_effect pg
                 \<lparr>hook = useLocalDraft_init store, showDraftDialog = False, post = None\<rparr>;
          p1 = p0\<lparr>hook := hydrate (draft_key pg) (hook p0)\<rparr>
      in commit pg p0 p1)"

text \<open>
  The handlers. Restoring also writes the draft's fields into the form and the
  content, which are outside this state: they come back as the \<open>getData()\<close> of later
  ticks.
\<close>

fun handle :: "page \<Rightarrow> event \<Rightarrow> page_state \<Rightarrow> page_state" where
  "handle pg (PostLoaded n) p = p\<lparr>post := Some n\<rparr>"
| "handle pg (DirtyTick getData) p = p\<lparr>hook := changeCheckInterval getData (hook p)\<rparr>"
| "handle pg (PersistTick getData isoNow now) p =
     p\<lparr>hook := autoSaveInterval (draft_key pg) getData isoNow now (hook p)\<rparr>"
| "handle pg RestoreDraft p = p\<lparr>showDraftDialog := False\<rparr>"
| "handle pg DiscardDraft p =
     p\<lparr>hook := clearDraft (draft_key pg) (hook p), showDraftDialog := False\<rparr>"
| "handle pg Committed p = p\<lparr>hook := clearDraft (draft_key pg) (hook p)\<rparr>"
| "handle pg (OpenChange b) p = p\<lparr>showDraftDialog := b\<rparr>"

definition page_step :: "page \<Rightarrow> page_state \<Rightarrow> event \<Rightarrow> page_state" where
  "page_step pg p ev = commit pg p (handle pg ev p)"

definition run_page :: "page \<Rightarrow> page_state \<Rightarrow> event list \<Rightarrow> page_state" where
  "run_page pg p evs = foldl (page_step pg) p evs"

section \<open>The shape of a stored draft\<close>

text \<open>
  The interface \<open>DraftData\<close> as a predicate on parsed values. The source casts the
  result of \<open>JSON.parse\<close> to this interface and never tests it.
\<close>

definition has_prop :: "json \<Rightarrow> jsstring \<Rightarrow> (json \<Rightarrow> bool) \<Rightarrow> bool" where
  "has_prop v k P = (case get_prop v k of None \<Rightarrow> False | Some x \<Rightarrow> P x)"

fun is_string :: "json \<Rightarrow> bool" where
  "is_string (JString s) = True"
| "is_string _ = False"

fun is_boolean :: "json \<Rightarrow> bool" where
  "is_boolean (JBool b) = True"
| "is_boolean _ = False"

fun is_string_array :: "json \<Rightarrow> bool" where
  "is_string_array (JArray xs) = list_all is_string xs"
| "is_string_array _ = False"

definition is_DraftData :: "json \<Rightarrow> bool" where
  "is_DraftData v =
     (has_prop v (js ''title'') is_string \<and>
      has_prop v (js ''slug'') is_string \<and>
      has_prop v (js ''description'') is_string \<and>
      has_prop v (js ''date'') is_string \<and>
      has_prop v (js ''draft'') is_boolean \<and>
      has_prop v (js ''tags'') is_string_array \<and>
      has_prop v (js ''content'') is_string \<and>
      has_prop v (js ''savedAt'') is_string)"

section \<open>Concrete posts, stores and sessions\<close>

definition fields_ab :: DraftFields where
  "fields_ab =
     \<lparr>title = js ''T'', slug = js ''t'', description = js '''',
      date = js ''2024-01-01T00:00:00.000Z'', draft = True,
      tags = [js ''a'', js ''b''], content = js ''x''\<rparr>"

definition fields_ba :: DraftFields where
  "fields_ba = fields_ab\<lparr>tags := [js ''b'', js ''a'']\<rparr>"

definition fields_edited :: DraftFields where
  "fields_edited = fields_ab\<lparr>content := js ''xy''\<rparr>"

definition iso0 :: jsstring where
  "iso0 = js ''2024-01-01T00:00:05.000Z''"

definition iso1 :: jsstring where
  "iso1 = js ''2024-01-02T00:00:05.000Z''"

definition iso2 :: jsstring where
  "iso2 = js ''2024-01-02T00:00:10.000Z''"

text \<open>A hook that has hydrated on an empty store and taken \<open>fields_ab\<close> as its baseline.\<close>

definition after_baseline :: draft_state where
  "after_baseline =
     changeCheckInterval (Some fields_ab) (hydrate (js ''new-post'') (useLocalDraft_init Map.empty))"

text \<open>
  Three stores for the new-post page: one holding \<open>{}\<close>, one holding a text that is
  cut off after the first member name, and one holding a draft that \<open>saveDraft\<close> wrote.
\<close>

definition store_empty_object :: "jsstring \<rightharpoonup> jsstring" where
  "store_empty_object = [storageKey (js ''new-post'') \<mapsto> js ''{}'']"

definition truncated_item :: jsstring where
  "truncated_item = js ''{'' @ [QUOTE] @ js ''title'' @ [QUOTE] @ js '':''"

definition store_truncated :: "jsstring \<rightharpoonup> jsstring" where
  "store_truncated = [storageKey (js ''new-post'') \<mapsto> truncated_item]"

definition store_saved :: "jsstring \<rightharpoonup> jsstring" where
  "store_saved =
     [storageKey (js ''new-post'') \<mapsto> stringify (DraftData_json (draftData fields_ab iso0))]"

text \<open>
  A session on the new-post page after the dialog has come up: the user discards the
  old draft, a dirty-check tick sees the form, the user types, a persist tick follows.
\<close>

definition discard_then_autosave :: "event list" where
  "discard_then_autosave =
     [DiscardDraft, DirtyTick (Some fields_ab), PersistTick (Some fields_edited) iso1 1704153605000]"

section \<open>Facts about strings\<close>

lemma substring_prefix: "substring s 0 a = take a s"
  by (simp add: substring_def Let_def min_def)

lemma substring_from_drop: "substring_from s a = drop a s"
  by (simp add: substring_from_def substring_def Let_def min_def max_def)

lemma substring_slice:
  "a \<le> b \<Longrightarrow> b \<le> length s \<Longrightarrow> substring s a b = take (b - a) (drop a s)"
  by (simp add: substring_def Let_def min_def max_def)

lemma substring_slice_length:
  "a \<le> b \<Longrightarrow> b \<le> length s \<Longrightarrow> length (substring s a b) = b - a"
  by (simp add: substring_slice)

lemma substring_empty: "substring s a a = []"
  by (simp add: substring_def Let_def)

lemma endsWith_LF: "endsWith s [LF] \<longleftrightarrow> s \<noteq> [] \<and> last s = LF"
proof (cases s rule: rev_cases)
  case Nil
  then show ?thesis by (simp add: endsWith_def)
next
  case (snoc ys y)
  then show ?thesis by (simp add: endsWith_def)
qed

section \<open>The text operations\<close>

text \<open>
  C4. Wrapping a non-empty selection, \<open>start < stop \<le> length doc\<close>: the new text is
  the text before the selection, the prefix, the selected text, the suffix and the text
  after the selection, and the cursor collapses to
  \<open>start + length prefix + (stop - start) + length suffix\<close>.
\<close>

theorem insertAtCursor_wraps_selection:
  assumes "start < stop" and "stop \<le> length doc"
  shows "insertAtCursor doc (Some \<lparr>selectionStart = start, selectionEnd = stop\<rparr>)
           prefix suffix defaultText =
         Some \<lparr>newText = take start doc @ prefix @ take (stop - start) (drop start doc)
                            @ suffix @ drop stop doc,
               selectionRange = (start + length prefix + (stop - start) + length suffix,
                                 start + length prefix + (stop - start) + length suffix)\<rparr>"
proof -
  from assms have sel: "substring doc start stop = take (stop - start) (drop start doc)"
    by (simp add: substring_slice)
  from assms have ne: "substring doc start stop \<noteq> []"
    by (simp add: sel)
  from assms have len: "length (substring doc start stop) = stop - start"
    by (simp add: substring_slice_length)
  show ?thesis
    unfolding insertAtCursor_def
    by (simp add: Let_def ne len substring_prefix substring_from_drop) (simp add: sel)
qed

text \<open>The italic command on \<open>Hello world\<close> with \<open>world\<close> selected.\<close>

theorem insertAtCursor_wraps_selection_witness:
  "actions Italic (js ''Hello world'') (Some \<lparr>selectionStart = 6, selectionEnd = 11\<rparr>) =
   Some \<lparr>newText = js ''Hello *world*'', selectionRange = (13, 13)\<rparr>"
  using insertAtCursor_wraps_selection
    [of 6 11 "js ''Hello world''" "js ''*''" "js ''*''" "js ''italic text''"]
  by (simp add: js_def)

text \<open>
  C5, as the code has it. With an empty selection the placeholder is inserted between
  prefix and suffix, and the cursor is set, collapsed, right after the prefix, at the
  placeholder's first character. The placeholder is not selected.
\<close>

theorem insertAtCursor_empty_selection:
  "insertAtCursor doc (Some \<lparr>selectionStart = start, selectionEnd = start\<rparr>)
     prefix suffix defaultText =
   Some \<lparr>newText = take start doc @ prefix @ defaultText @ suffix @ drop start doc,
         selectionRange = (start + length prefix, start + length prefix)\<rparr>"
  unfolding insertAtCursor_def
  by (simp add: Let_def substring_empty substring_prefix substring_from_drop)

theorem insertAtCursor_empty_selection_witness:
  "actions Bold (js ''Hello '') (Some \<lparr>selectionStart = 6, selectionEnd = 6\<rparr>) =
     Some \<lparr>newText = js ''Hello **bold text**'', selectionRange = (8, 8)\<rparr>
   \<and> actions Link (js ''Hello '') (Some \<lparr>selectionStart = 6, selectionEnd = 6\<rparr>) =
     Some \<lparr>newText = js ''Hello [link text](url)'', selectionRange = (7, 7)\<rparr>"
  using insertAtCursor_empty_selection [of "js ''Hello ''" 6 "js ''**''" "js ''**''" "js ''bold text''"]
    insertAtCursor_empty_selection [of "js ''Hello ''" 6 "js ''[''" "js ''](url)''" "js ''link text''"]
  by (simp add: js_def)

text \<open>
  The bold command at the end of \<open>Hello \<close>: the placeholder occupies offsets 8 to 17,
  and the selection set is (8, 8).
\<close>

theorem placeholder_not_selected_counterexample:
  "map_option newText
     (actions Bold (js ''Hello '') (Some \<lparr>selectionStart = 6, selectionEnd = 6\<rparr>))
     = Some (js ''Hello **bold text**'')
   \<and> map_option selectionRange
     (actions Bold (js ''Hello '') (Some \<lparr>selectionStart = 6, selectionEnd = 6\<rparr>))
     = Some (8, 8)
   \<and> map_option selectionRange
     (actions Bold (js ''Hello '') (Some \<lparr>selectionStart = 6, selectionEnd = 6\<rparr>))
     \<noteq> Some (8, 8 + length (js ''bold text''))"
  by (simp add: js_def insertAtCursor_def substring_def substring_from_def Let_def)

text \<open>
  C6. \<open>insertOnNewLine\<close> puts one line feed before the snippet exactly when the text
  before the cursor is not empty and does not end with a line feed, puts nothing after
  the snippet, and sets the cursor to the old offset plus what was inserted. At offset 0
  of the empty text \<open># \<close> gives \<open># \<close>; at the end of \<open>abc\<close> it gives \<open>abc\<close>, a
  line feed and \<open># \<close>.
\<close>

theorem insertOnNewLine_newline_rule:
  "insertOnNewLine doc (Some \<lparr>selectionStart = cursor, selectionEnd = e\<rparr>) snippet =
     Some \<lparr>newText =
             take cursor doc
             @ (if take cursor doc \<noteq> [] \<and> last (take cursor doc) \<noteq> LF then [LF] else [])
             @ snippet @ drop cursor doc,
           selectionRange =
             (cursor + (if take cursor doc \<noteq> [] \<and> last (take cursor doc) \<noteq> LF then 1 else 0)
                + length snippet,
              cursor + (if take cursor doc \<noteq> [] \<and> last (take cursor doc) \<noteq> LF then 1 else 0)
                + length snippet)\<rparr>
   \<and> actions H1 (js '''') (Some \<lparr>selectionStart = 0, selectionEnd = 0\<rparr>) =
       Some \<lparr>newText = js ''# '', selectionRange = (2, 2)\<rparr>
   \<and> actions H1 (js ''abc'') (Some \<lparr>selectionStart = 3, selectionEnd = 3\<rparr>) =
       Some \<lparr>newText = js ''abc'' @ [LF] @ js ''# '', selectionRange = (6, 6)\<rparr>"
proof -
  have a: "insertOnNewLine doc (Some \<lparr>selectionStart = cursor, selectionEnd = e\<rparr>) snippet =
     Some \<lparr>newText =
             take cursor doc
             @ (if take cursor doc \<noteq> [] \<and> last (take cursor doc) \<noteq> LF then [LF] else [])
             @ snippet @ drop cursor doc,
           selectionRange =
             (cursor + (if take cursor doc \<noteq> [] \<and> last (take cursor doc) \<noteq> LF then 1 else 0)
                + length snippet,
              cursor + (if take cursor doc \<noteq> [] \<and> last (take cursor doc) \<noteq> LF then 1 else 0)
                + length snippet)\<rparr>"
    unfolding insertOnNewLine_def
    by (auto simp add: Let_def substring_prefix substring_from_drop endsWith_LF)
  have b: "actions H1 (js '''') (Some \<lparr>selectionStart = 0, selectionEnd = 0\<rparr>) =
       Some \<lparr>newText = js ''# '', selectionRange = (2, 2)\<rparr>"
    by (simp add: insertOnNewLine_def js_def Let_def substring_prefix substring_from_drop)
  have c: "actions H1 (js ''abc'') (Some \<lparr>selectionStart = 3, selectionEnd = 3\<rparr>) =
       Some \<lparr>newText = js ''abc'' @ [LF] @ js ''# '', selectionRange = (6, 6)\<rparr>"
    by (simp add: insertOnNewLine_def js_def Let_def substring_prefix substring_from_drop
        endsWith_def LF_def)
  from a b c show ?thesis by blast
qed

text \<open>
  C10. For every text and selection, \<open>insertAtCursor\<close> returns the text before
  \<open>start\<close>, then the prefix, the selected text (the placeholder when nothing is
  selected) and the suffix, then the text from \<open>stop\<close> on; \<open>insertOnNewLine\<close> returns
  the text before \<open>start\<close>, what it inserts, and the text from \<open>start\<close> on. With no
  textarea neither changes anything. For a selection \<open>start \<le> stop \<le> length doc\<close> the
  selected text is the slice between the two offsets, and the document is the text
  before, the selected text and the text after: nothing outside the selection is lost
  or changed.
\<close>

theorem text_operations_frame:
  "map_option newText
     (insertAtCursor doc (Some \<lparr>selectionStart = start, selectionEnd = stop\<rparr>)
        prefix suffix defaultText)
   = Some (take start doc
           @ (prefix
              @ (if substring doc start stop = [] then defaultText else substring doc start stop)
              @ suffix)
           @ drop stop doc)
   \<and> map_option newText
       (insertOnNewLine doc (Some \<lparr>selectionStart = start, selectionEnd = stop\<rparr>) snippet)
     = Some (take start doc
             @ ((if take start doc \<noteq> [] \<and> last (take start doc) \<noteq> LF then [LF] else [])
                @ snippet)
             @ drop start doc)
   \<and> insertAtCursor doc None prefix suffix defaultText = None
   \<and> insertOnNewLine doc None snippet = None
   \<and> (start \<le> stop \<and> stop \<le> length doc \<longrightarrow>
        substring doc start stop = take (stop - start) (drop start doc)
        \<and> doc = take start doc @ substring doc start stop @ drop stop doc)"
proof -
  have wrap: "map_option newText
     (insertAtCursor doc (Some \<lparr>selectionStart = start, selectionEnd = stop\<rparr>)
        prefix suffix defaultText)
   = Some (take start doc
           @ (prefix
              @ (if substring doc start stop = [] then defaultText else substring doc start stop)
              @ suffix)
           @ drop stop doc)"
    unfolding insertAtCursor_def
    by (simp add: Let_def substring_prefix substring_from_drop)
  have line: "map_option newText
       (insertOnNewLine doc (Some \<lparr>selectionStart = start, selectionEnd = stop\<rparr>) snippet)
     = Some (take start doc
             @ ((if take start doc \<noteq> [] \<and> last (take start doc) \<noteq> LF then [LF] else [])
                @ snippet)
             @ drop start doc)"
    unfolding insertOnNewLine_def
    by (auto simp add: Let_def substring_prefix substring_from_drop endsWith_LF)
  have none: "insertAtCursor doc None prefix suffix defaultText = None
       \<and> insertOnNewLine doc None snippet = None"
    by (simp add: insertAtCursor_def insertOnNewLine_def)
  have frame: "substring doc start stop = take (stop - start) (drop start doc)
        \<and> doc = take start doc @ substring doc start stop @ drop stop doc"
    if h: "start \<le> stop" "stop \<le> length doc"
  proof -
    from h have sel: "substring doc start stop = take (stop - start) (drop start doc)"
      by (simp add: substring_slice)
    have "take (stop - start) (drop start doc) @ drop stop doc = drop start doc"
      using h by (metis append_take_drop_id drop_drop le_add_diff_inverse2)
    then have "doc = take start doc @ take (stop - start) (drop start doc) @ drop stop doc"
      by simp
    with sel show ?thesis by simp
  qed
  from wrap line none frame show ?thesis by blast
qed

text \<open>The link command on \<open>see docs here\<close> with \<open>docs\<close> selected, and a quote at offset 4.\<close>

theorem text_operations_frame_witness:
  "map_option newText
     (actions Link (js ''see docs here'') (Some \<lparr>selectionStart = 4, selectionEnd = 8\<rparr>))
     = Some (js ''see '' @ js ''['' @ js ''docs'' @ js ''](url)'' @ js '' here'')
   \<and> map_option newText
     (actions Quote (js ''see docs here'') (Some \<lparr>selectionStart = 4, selectionEnd = 8\<rparr>))
     = Some (js ''see '' @ [LF] @ js ''> '' @ js ''docs here'')
   \<and> js ''see docs here'' = js ''see '' @ js ''docs'' @ js '' here''"
proof -
  have h: "(4::nat) \<le> 8 \<and> 8 \<le> length (js ''see docs here'')"
    by (simp add: js_def)
  note r = text_operations_frame
    [of "js ''see docs here''" 4 8 "js ''[''" "js ''](url)''" "js ''link text''" "js ''> ''"]
  from r h have sel: "substring (js ''see docs here'') 4 8 = take (8 - 4) (drop 4 (js ''see docs here''))"
    by blast
  have sv: "substring (js ''see docs here'') 4 8 = js ''docs''"
    by (simp only: sel) (simp add: js_def)
  have a: "map_option newText
     (actions Link (js ''see docs here'') (Some \<lparr>selectionStart = 4, selectionEnd = 8\<rparr>))
     = Some (js ''see '' @ js ''['' @ js ''docs'' @ js ''](url)'' @ js '' here'')"
    by (simp only: actions.simps r [THEN conjunct1] sv) (simp add: js_def)
  have b: "map_option newText
     (actions Quote (js ''see docs here'') (Some \<lparr>selectionStart = 4, selectionEnd = 8\<rparr>))
     = Some (js ''see '' @ [LF] @ js ''> '' @ js ''docs here'')"
    by (simp only: actions.simps r [THEN conjunct2, THEN conjunct1]) (simp add: js_def LF_def)
  have c: "js ''see docs here'' = js ''see '' @ js ''docs'' @ js '' here''"
    by (simp add: js_def)
  from a b c show ?thesis by blast
qed

section \<open>Facts about the concrete values\<close>

lemma sort_mset_cong: "mset xs = mset ys \<Longrightarrow> sort xs = sort (ys :: 'a::linorder list)"
  by (metis properties_for_sort sorted_sort mset_sort)

lemma hash_edited: "dataToHash fields_edited \<noteq> dataToHash fields_ab"
  by code_simp

lemma parse_empty_object: "JSON_parse (js ''{}'') = Some (JObject [])"
  by code_simp

lemma parse_truncated: "JSON_parse truncated_item = None"
  by code_simp

lemma parse_saved:
  "JSON_parse (stringify (DraftData_json (draftData fields_ab iso0)))
   = Some (DraftData_json (draftData fields_ab iso0))"
  by code_simp

lemma parse_edited:
  "JSON_parse (stringify (DraftData_json (draftData fields_edited iso1)))
   = Some (DraftData_json (draftData fields_edited iso1))"
  by code_simp

lemma savedAt_edited:
  "get_prop (DraftData_json (draftData fields_edited iso1)) (js ''savedAt'') = Some (JString iso1)"
  by code_simp

lemma stringify_nonempty: "stringify (DraftData_json dd) \<noteq> []"
  by (simp add: DraftData_json_def js_def)

lemma DraftData_json_not_null: "DraftData_json dd \<noteq> JNull"
  by (simp add: DraftData_json_def)

lemma after_baseline_ref: "lastSavedHashRef after_baseline = Some (dataToHash fields_ab)"
  by (simp add: after_baseline_def changeCheckInterval_def checkForChanges_def
      hydrate_def useLocalDraft_init_def Let_def)

lemma after_baseline_log: "setItemLog after_baseline = []"
  by (simp add: after_baseline_def changeCheckInterval_def checkForChanges_def
      hydrate_def useLocalDraft_init_def Let_def)

lemma draft_key_inj: "(draft_key pg = draft_key pg') = (pg = pg')"
  by (cases pg; cases pg') (auto simp add: js_def)

lemma mount_saved:
  "showDraftDialog (mount NewPostPage store_saved) = True
   \<and> hasDraft (hook (mount NewPostPage store_saved)) = True
   \<and> isHydrated (hook (mount NewPostPage store_saved)) = True
   \<and> lastSavedHashRef (hook (mount NewPostPage store_saved)) = None"
  by (simp add: mount_def commit_def hydrate_def useLocalDraft_init_def store_saved_def Let_def
      parse_saved stringify_nonempty DraftData_json_not_null)

section \<open>The fingerprint and the dirty check\<close>

text \<open>
  C2. Two field states that agree on title, slug, description, date, draft and content,
  and whose tags are permutations of each other, have the same fingerprint; a dirty check
  of the one against the fingerprint of the other returns false and clears the flag.
  \<open>savedAt\<close> is not read: adding it to the fields, or changing it, leaves the
  fingerprint as it is.
\<close>

theorem dataToHash_tag_order:
  fixes d1 d2 :: DraftFields
  assumes "title d1 = title d2" and "slug d1 = slug d2" and "description d1 = description d2"
    and "date d1 = date d2" and "draft d1 = draft d2" and "content d1 = content d2"
    and "mset (tags d1) = mset (tags d2)"
  shows "dataToHash d1 = dataToHash d2
       \<and> checkForChanges (Some d2) (s\<lparr>lastSavedHashRef := Some (dataToHash d1)\<rparr>)
           = (False, s\<lparr>lastSavedHashRef := Some (dataToHash d1), hasUnsavedChanges := False\<rparr>)
       \<and> dataToHash (draftData d1 t) = dataToHash d1
       \<and> dataToHash (dd\<lparr>savedAt := t\<rparr>) = dataToHash dd"
proof -
  have srt: "sort (tags d1) = sort (tags d2)"
    using assms(7) by (rule sort_mset_cong)
  have eq: "dataToHash d1 = dataToHash d2"
    by (simp add: dataToHash_def assms(1-6) srt)
  have chk: "checkForChanges (Some d2) (s\<lparr>lastSavedHashRef := Some (dataToHash d1)\<rparr>)
           = (False, s\<lparr>lastSavedHashRef := Some (dataToHash d1), hasUnsavedChanges := False\<rparr>)"
    by (simp add: checkForChanges_def eq)
  have sv: "dataToHash (draftData d1 t) = dataToHash d1"
    by (simp add: dataToHash_def draftData_def DraftFields.defs)
  have sv2: "dataToHash (dd\<lparr>savedAt := t\<rparr>) = dataToHash dd"
    by (simp add: dataToHash_def)
  from eq chk sv sv2 show ?thesis by simp
qed

text \<open>Tags \<open>a, b\<close> against tags \<open>b, a\<close>, on a fresh hook.\<close>

theorem dataToHash_tag_order_witness:
  "dataToHash fields_ab = dataToHash fields_ba
   \<and> fst (checkForChanges (Some fields_ba)
        (snd (checkForChanges (Some fields_ab) (useLocalDraft_init Map.empty)))) = False"
proof -
  have f: "title fields_ab = title fields_ba" "slug fields_ab = slug fields_ba"
    "description fields_ab = description fields_ba" "date fields_ab = date fields_ba"
    "draft fields_ab = draft fields_ba" "content fields_ab = content fields_ba"
    by (simp_all add: fields_ba_def)
  have t: "mset (tags fields_ab) = mset (tags fields_ba)"
    by (simp add: fields_ab_def fields_ba_def)
  have b: "snd (checkForChanges (Some fields_ab) (useLocalDraft_init Map.empty))
           = (useLocalDraft_init Map.empty)\<lparr>lastSavedHashRef := Some (dataToHash fields_ab)\<rparr>"
    by (simp add: checkForChanges_def useLocalDraft_init_def)
  note r = dataToHash_tag_order [OF f t, of "useLocalDraft_init Map.empty"]
  have c: "fst (checkForChanges (Some fields_ba)
        (snd (checkForChanges (Some fields_ab) (useLocalDraft_init Map.empty)))) = False"
    by (simp only: b r [THEN conjunct2, THEN conjunct1] fst_conv)
  from r [THEN conjunct1] c show ?thesis by blast
qed

lemma dirty_checks_keep_baseline:
  "lastSavedHashRef s = Some h \<Longrightarrow> lastSavedHashRef (dirty_checks gs s) = Some h"
proof (induction gs arbitrary: s)
  case Nil
  then show ?case by simp
next
  case (Cons g gs)
  from Cons.prems have "lastSavedHashRef (changeCheckInterval g s) = Some h"
    by (simp add: changeCheckInterval_def checkForChanges_def Let_def split: option.split)
  then show ?case by (simp add: Cons.IH)
qed

lemma dirty_checks_without_data: "dirty_checks (replicate n None) s = s"
  by (induction n) (simp_all add: changeCheckInterval_def checkForChanges_def)

text \<open>
  C3. A hook has no baseline after mounting and hydration, and dirty checks without
  data leave it so. The first dirty check that sees data returns false and stores the
  fingerprint of what it saw. The next check returns true exactly when the fingerprint
  of its data differs from that baseline; on the same data it returns false. Dirty
  checks never move the baseline: after any run of further dirty checks, whatever they
  see, a check still returns true exactly when the fingerprint of its data differs from
  the baseline that the first one stored.
\<close>

theorem checkForChanges_baseline:
  assumes "lastSavedHashRef s = None"
  shows "checkForChanges (Some d) s = (False, s\<lparr>lastSavedHashRef := Some (dataToHash d)\<rparr>)
       \<and> fst (checkForChanges (Some d') (snd (checkForChanges (Some d) s)))
           = (dataToHash d' \<noteq> dataToHash d)
       \<and> fst (checkForChanges (Some d) (snd (checkForChanges (Some d) s))) = False
       \<and> checkForChanges None s = (False, s)
       \<and> lastSavedHashRef (hydrate key (useLocalDraft_init store)) = None
       \<and> dirty_checks (replicate n None) s = s
       \<and> lastSavedHashRef (dirty_checks gs (snd (checkForChanges (Some d) s)))
           = Some (dataToHash d)
       \<and> fst (checkForChanges (Some d') (dirty_checks gs (snd (checkForChanges (Some d) s))))
           = (dataToHash d' \<noteq> dataToHash d)"
proof -
  have a: "checkForChanges (Some d) s = (False, s\<lparr>lastSavedHashRef := Some (dataToHash d)\<rparr>)"
    using assms by (simp add: checkForChanges_def)
  have b: "fst (checkForChanges (Some e) (s\<lparr>lastSavedHashRef := Some (dataToHash d)\<rparr>))
           = (dataToHash e \<noteq> dataToHash d)" for e
    by (auto simp add: checkForChanges_def Let_def)
  have c: "checkForChanges None s = (False, s)"
    by (simp add: checkForChanges_def)
  have e: "lastSavedHashRef (hydrate key (useLocalDraft_init store)) = None"
    by (simp add: hydrate_def useLocalDraft_init_def Let_def split: option.split)
  have f: "dirty_checks (replicate n None) s = s"
    by (rule dirty_checks_without_data)
  have g: "lastSavedHashRef (dirty_checks gs (s\<lparr>lastSavedHashRef := Some (dataToHash d)\<rparr>))
           = Some (dataToHash d)"
    by (rule dirty_checks_keep_baseline) simp
  have h: "fst (checkForChanges (Some d')
             (dirty_checks gs (s\<lparr>lastSavedHashRef := Some (dataToHash d)\<rparr>)))
           = (dataToHash d' \<noteq> dataToHash d)"
    using g by (auto simp add: checkForChanges_def Let_def)
  from a b [of d'] b [of d] c e f g h show ?thesis by simp
qed

text \<open>
  A fresh hook sees \<open>fields_ab\<close>, then the same post with one more character, then
  \<open>fields_ab\<close> again: false, true, false.
\<close>

theorem checkForChanges_baseline_witness:
  "lastSavedHashRef (useLocalDraft_init Map.empty) = None
   \<and> fst (checkForChanges (Some fields_ab) (useLocalDraft_init Map.empty)) = False
   \<and> fst (checkForChanges (Some fields_edited)
        (snd (checkForChanges (Some fields_ab) (useLocalDraft_init Map.empty)))) = True
   \<and> fst (checkForChanges (Some fields_ab)
        (dirty_checks [Some fields_edited]
          (snd (checkForChanges (Some fields_ab) (useLocalDraft_init Map.empty))))) = False
   \<and> fst (checkForChanges (Some fields_edited)
        (dirty_checks [Some fields_edited, Some fields_ab, None]
          (snd (checkForChanges (Some fields_ab) (useLocalDraft_init Map.empty))))) = True"
proof -
  have h: "lastSavedHashRef (useLocalDraft_init Map.empty) = None"
    by (simp add: useLocalDraft_init_def)
  note r = checkForChanges_baseline [OF h, where d = fields_ab and d' = fields_edited
      and gs = "[Some fields_edited, Some fields_ab, None]"]
  note q = checkForChanges_baseline [OF h, where d = fields_ab and d' = fields_ab
      and gs = "[Some fields_edited]"]
  have a: "fst (checkForChanges (Some fields_ab) (useLocalDraft_init Map.empty)) = False"
    by (simp only: r [THEN conjunct1] fst_conv)
  have b: "fst (checkForChanges (Some fields_edited)
        (snd (checkForChanges (Some fields_ab) (useLocalDraft_init Map.empty)))) = True"
    by (simp only: r [THEN conjunct2, THEN conjunct1] hash_edited simp_thms)
  from q have c: "fst (checkForChanges (Some fields_ab)
        (dirty_checks [Some fields_edited]
          (snd (checkForChanges (Some fields_ab) (useLocalDraft_init Map.empty))))) = False"
    by blast
  from r hash_edited have e: "fst (checkForChanges (Some fields_edited)
        (dirty_checks [Some fields_edited, Some fields_ab, None]
          (snd (checkForChanges (Some fields_ab) (useLocalDraft_init Map.empty))))) = True"
    by blast
  from h a b c e show ?thesis by blast
qed

section \<open>Saving\<close>

text \<open>
  C1, as the code has it. Two calls of \<open>saveDraft\<close> in a row on the same live state
  write at most once. The first call writes, under the hook's key and with its own
  \<open>savedAt\<close>, exactly when the fingerprint of the live state is not the last saved
  one, and records the fingerprint; otherwise it changes nothing. The second call
  changes nothing at all, so the stored draft and its \<open>savedAt\<close> stay. Without live
  state nothing is written. Two persist ticks in a row behave the same way: the second
  neither writes nor touches the store.
\<close>

theorem saveDraft_twice:
  "saveDraft key (Some d) isoB tB (saveDraft key (Some d) isoA tA s) = saveDraft key (Some d) isoA tA s
   \<and> setItemLog (saveDraft key (Some d) isoA tA s) =
       setItemLog s @
         (if lastSavedHashRef s = Some (dataToHash d) then []
          else [(storageKey key, stringify (DraftData_json (draftData d isoA)))])
   \<and> (if lastSavedHashRef s = Some (dataToHash d) then saveDraft key (Some d) isoA tA s = s
       else localStorage (saveDraft key (Some d) isoA tA s) (storageKey key)
              = Some (stringify (DraftData_json (draftData d isoA))))
   \<and> lastSavedHashRef (saveDraft key (Some d) isoA tA s) = Some (dataToHash d)
   \<and> saveDraft key None isoA tA s = s
   \<and> setItemLog (autoSaveInterval key getData isoB tB (autoSaveInterval key getData isoA tA s))
       = setItemLog (autoSaveInterval key getData isoA tA s)
   \<and> localStorage (autoSaveInterval key getData isoB tB (autoSaveInterval key getData isoA tA s))
       = localStorage (autoSaveInterval key getData isoA tA s)"
proof -
  have a: "saveDraft key (Some d) isoB tB (saveDraft key (Some d) isoA tA s)
           = saveDraft key (Some d) isoA tA s"
    by (simp add: saveDraft_def Let_def)
  have b: "setItemLog (saveDraft key (Some d) isoA tA s) =
       setItemLog s @
         (if lastSavedHashRef s = Some (dataToHash d) then []
          else [(storageKey key, stringify (DraftData_json (draftData d isoA)))])"
    by (simp add: saveDraft_def Let_def)
  have c: "if lastSavedHashRef s = Some (dataToHash d) then saveDraft key (Some d) isoA tA s = s
       else localStorage (saveDraft key (Some d) isoA tA s) (storageKey key)
              = Some (stringify (DraftData_json (draftData d isoA)))"
    by (simp add: saveDraft_def Let_def)
  have e: "lastSavedHashRef (saveDraft key (Some d) isoA tA s) = Some (dataToHash d)"
    by (simp add: saveDraft_def Let_def)
  have f: "saveDraft key None isoA tA s = s"
    by (simp add: saveDraft_def)
  have g: "setItemLog (autoSaveInterval key getData isoB tB (autoSaveInterval key getData isoA tA s))
       = setItemLog (autoSaveInterval key getData isoA tA s)"
    by (cases getData; cases "lastSavedHashRef s")
       (simp_all add: autoSaveInterval_def checkForChanges_def saveDraft_def Let_def)
  have h: "localStorage (autoSaveInterval key getData isoB tB (autoSaveInterval key getData isoA tA s))
       = localStorage (autoSaveInterval key getData isoA tA s)"
    by (cases getData; cases "lastSavedHashRef s")
       (simp_all add: autoSaveInterval_def checkForChanges_def saveDraft_def Let_def)
  from a b c e f g h show ?thesis by blast
qed

text \<open>
  After the baseline \<open>fields_ab\<close> the edited post is saved twice: one write, and the
  draft that loads back carries the time of the first call.
\<close>

theorem saveDraft_twice_witness:
  "length (setItemLog (saveDraft (js ''new-post'') (Some fields_edited) iso2 1704153610000
      (saveDraft (js ''new-post'') (Some fields_edited) iso1 1704153605000 after_baseline))) = 1
   \<and> get_prop (loadDraft (js ''new-post'')
        (saveDraft (js ''new-post'') (Some fields_edited) iso2 1704153610000
          (saveDraft (js ''new-post'') (Some fields_edited) iso1 1704153605000 after_baseline)))
        (js ''savedAt'') = Some (JString iso1)"
proof -
  note r = saveDraft_twice [of "js ''new-post''" fields_edited iso2 1704153610000 iso1 1704153605000
      after_baseline]
  have ne: "lastSavedHashRef after_baseline \<noteq> Some (dataToHash fields_edited)"
    using hash_edited by (simp add: after_baseline_ref)
  have eq: "saveDraft (js ''new-post'') (Some fields_edited) iso2 1704153610000
      (saveDraft (js ''new-post'') (Some fields_edited) iso1 1704153605000 after_baseline)
      = saveDraft (js ''new-post'') (Some fields_edited) iso1 1704153605000 after_baseline"
    by (rule r [THEN conjunct1])
  have lg: "length (setItemLog (saveDraft (js ''new-post'') (Some fields_edited) iso1 1704153605000
      after_baseline)) = 1"
    using r [THEN conjunct2, THEN conjunct1] ne by (simp add: after_baseline_log)
  have st: "localStorage (saveDraft (js ''new-post'') (Some fields_edited) iso1 1704153605000
      after_baseline) (storageKey (js ''new-post''))
      = Some (stringify (DraftData_json (draftData fields_edited iso1)))"
    using r [THEN conjunct2, THEN conjunct2, THEN conjunct1] ne by simp
  have ld: "loadDraft (js ''new-post'') (saveDraft (js ''new-post'') (Some fields_edited) iso1
      1704153605000 after_baseline) = DraftData_json (draftData fields_edited iso1)"
    by (simp add: loadDraft_def st parse_edited stringify_nonempty)
  show ?thesis
    by (simp only: eq lg ld savedAt_edited simp_thms)
qed

text \<open>
  After the baseline \<open>fields_ab\<close> the same post is saved twice, and two persist ticks
  see it: no write in either case.
\<close>

theorem saveDraft_twice_counterexample:
  "setItemLog (saveDraft (js ''new-post'') (Some fields_ab) iso2 1704153610000
      (saveDraft (js ''new-post'') (Some fields_ab) iso1 1704153605000 after_baseline)) = []
   \<and> length (setItemLog (saveDraft (js ''new-post'') (Some fields_ab) iso2 1704153610000
      (saveDraft (js ''new-post'') (Some fields_ab) iso1 1704153605000 after_baseline))) \<noteq> 1
   \<and> setItemLog (autoSaveInterval (js ''new-post'') (Some fields_ab) iso2 1704153610000
      (autoSaveInterval (js ''new-post'') (Some fields_ab) iso1 1704153605000 after_baseline)) = []"
  by (simp add: saveDraft_def autoSaveInterval_def after_baseline_def changeCheckInterval_def
      checkForChanges_def hydrate_def useLocalDraft_init_def Let_def)

section \<open>Loading\<close>

text \<open>
  C7, as the code has it. When the store has nothing under the hook's key, or the
  empty string, or a text that \<open>JSON.parse\<close> rejects, \<open>loadDraft\<close> returns null and the
  hook, once hydrated, reports no draft; hydration changes nothing but \<open>isHydrated\<close>.
  Nothing is raised: the SyntaxError is the \<open>None\<close> of \<open>JSON_parse\<close>, which both
  functions turn into their result. A stored text that \<open>JSON.parse\<close> accepts is not
  checked against the shape of a draft: whatever value it parses to, \<open>loadDraft\<close>
  returns that value and the hydrated hook reports a draft.
\<close>

theorem loadDraft_unparsable_absent:
  assumes "store (storageKey key) = None \<or> store (storageKey key) = Some []
           \<or> (\<exists>v. store (storageKey key) = Some v \<and> JSON_parse v = None)"
  shows "loadDraft key (hydrate key (useLocalDraft_init store)) = JNull
       \<and> hasDraft (hydrate key (useLocalDraft_init store)) = False
       \<and> hydrate key (useLocalDraft_init store) = (useLocalDraft_init store)\<lparr>isHydrated := True\<rparr>
       \<and> (store' (storageKey key') = Some v' \<and> v' \<noteq> [] \<and> JSON_parse v' = Some d \<longrightarrow>
            loadDraft key' (hydrate key' (useLocalDraft_init store')) = d
            \<and> hasDraft (hydrate key' (useLocalDraft_init store')) = True)"
proof -
  from assms have a: "loadDraft key (useLocalDraft_init store\<lparr>isHydrated := True\<rparr>) = JNull"
    by (auto simp add: loadDraft_def useLocalDraft_init_def)
  from assms
  have b: "hydrate key (useLocalDraft_init store) = (useLocalDraft_init store)\<lparr>isHydrated := True\<rparr>"
    by (auto simp add: hydrate_def useLocalDraft_init_def Let_def)
  have c: "hasDraft ((useLocalDraft_init store)\<lparr>isHydrated := True\<rparr>) = False"
    by (simp add: useLocalDraft_init_def)
  have e: "loadDraft key' (hydrate key' (useLocalDraft_init store')) = d
            \<and> hasDraft (hydrate key' (useLocalDraft_init store')) = True"
    if "store' (storageKey key') = Some v'" and "v' \<noteq> []" and "JSON_parse v' = Some d"
    using that by (simp add: loadDraft_def hydrate_def useLocalDraft_init_def Let_def)
  from a b c e show ?thesis by simp
qed

text \<open>
  The store whose item is cut off after the first member name, and the store holding
  a draft that \<open>saveDraft\<close> wrote.
\<close>

theorem loadDraft_unparsable_absent_witness:
  "loadDraft (js ''new-post'') (hydrate (js ''new-post'') (useLocalDraft_init store_truncated)) = JNull
   \<and> hasDraft (hydrate (js ''new-post'') (useLocalDraft_init store_truncated)) = False
   \<and> loadDraft (js ''new-post'') (hydrate (js ''new-post'') (useLocalDraft_init store_saved))
       = DraftData_json (draftData fields_ab iso0)
   \<and> hasDraft (hydrate (js ''new-post'') (useLocalDraft_init store_saved)) = True"
proof -
  have "store_truncated (storageKey (js ''new-post'')) = Some truncated_item"
    by (simp add: store_truncated_def)
  with parse_truncated
  have h: "store_truncated (storageKey (js ''new-post'')) = None
         \<or> store_truncated (storageKey (js ''new-post'')) = Some []
         \<or> (\<exists>v. store_truncated (storageKey (js ''new-post'')) = Some v \<and> JSON_parse v = None)"
    by blast
  have g: "store_saved (storageKey (js ''new-post''))
           = Some (stringify (DraftData_json (draftData fields_ab iso0)))"
    by (simp add: store_saved_def)
  note r = loadDraft_unparsable_absent [of store_truncated "js ''new-post''", OF h,
      where store' = store_saved and key' = "js ''new-post''"
        and v' = "stringify (DraftData_json (draftData fields_ab iso0))"
        and d = "DraftData_json (draftData fields_ab iso0)"]
  from r g parse_saved stringify_nonempty show ?thesis by blast
qed

text \<open>
  The store holding \<open>{}\<close>: the text parses, the value is no \<open>DraftData\<close>, and yet
  \<open>loadDraft\<close> returns it and the hydrated hook reports a draft.
\<close>

theorem loadDraft_invalid_shape_counterexample:
  "JSON_parse (js ''{}'') = Some (JObject [])
   \<and> \<not> is_DraftData (JObject [])
   \<and> loadDraft (js ''new-post'') (hydrate (js ''new-post'') (useLocalDraft_init store_empty_object))
       = JObject []
   \<and> JObject [] \<noteq> JNull
   \<and> hasDraft (hydrate (js ''new-post'') (useLocalDraft_init store_empty_object)) = True"
proof -
  have ne: "js ''{}'' \<noteq> []"
    by (simp add: js_def)
  show ?thesis
    by (simp add: parse_empty_object ne is_DraftData_def has_prop_def loadDraft_def hydrate_def
        useLocalDraft_init_def store_empty_object_def Let_def)
qed

section \<open>Storage keys\<close>

text \<open>
  C8, as the code has it. The key of a page's draft is \<open>inkwell-draft-\<close> followed by the
  page's identifier, \<open>new-post\<close> or \<open>edit-\<close> and the slug. Two pages have the same key
  only if they are the same page. \<open>saveDraft\<close> calls \<open>setItem\<close> with that key and no
  other.
\<close>

theorem storageKey_layout:
  "storageKey (draft_key pg) = js ''inkwell-draft-'' @ draft_key pg
   \<and> draft_key NewPostPage = js ''new-post''
   \<and> draft_key (EditPostPage postSlug) = js ''edit-'' @ postSlug
   \<and> (storageKey (draft_key pg) = storageKey (draft_key pg')) = (pg = pg')
   \<and> map fst (setItemLog (saveDraft (draft_key pg) getData isoA tA s)) =
       map fst (setItemLog s) @
         (case getData of
            None \<Rightarrow> []
          | Some d \<Rightarrow> if lastSavedHashRef s = Some (dataToHash d) then []
                      else [js ''inkwell-draft-'' @ draft_key pg])"
proof -
  have a: "(storageKey (draft_key pg) = storageKey (draft_key pg')) = (pg = pg')"
    by (simp add: storageKey_def draft_key_inj)
  have b: "map fst (setItemLog (saveDraft (draft_key pg) getData isoA tA s)) =
       map fst (setItemLog s) @
         (case getData of
            None \<Rightarrow> []
          | Some d \<Rightarrow> if lastSavedHashRef s = Some (dataToHash d) then []
                      else [js ''inkwell-draft-'' @ draft_key pg])"
    by (simp add: saveDraft_def storageKey_def Let_def split: option.split)
  from a b show ?thesis by (simp add: storageKey_def)
qed

text \<open>The new-post page: its key is \<open>inkwell-draft-new-post\<close>, not \<open>draft-new-post\<close>.\<close>

theorem storageKey_prefix_counterexample:
  "storageKey (draft_key NewPostPage) = js ''inkwell-draft-new-post''
   \<and> storageKey (draft_key NewPostPage) \<noteq> js ''draft-'' @ draft_key NewPostPage
   \<and> map fst (setItemLog (saveDraft (draft_key NewPostPage) (Some fields_ab) iso1 1704153605000
        (useLocalDraft_init Map.empty))) = [js ''inkwell-draft-new-post'']
   \<and> map fst (setItemLog (saveDraft (draft_key NewPostPage) (Some fields_ab) iso1 1704153605000
        (useLocalDraft_init Map.empty))) \<noteq> [js ''draft-'' @ draft_key NewPostPage]"
  by (simp add: storageKey_def saveDraft_def useLocalDraft_init_def Let_def js_def)

section \<open>The recovery dialog\<close>

text \<open>
  What the ticks cannot do: a dirty-check tick never opens the dialog, and while the hook
  reports a draft (as it does after a restore) no tick opens it on the new-post page.
\<close>

lemma dirty_tick_keeps_dialog:
  "showDraftDialog (page_step pg p (DirtyTick getData)) = showDraftDialog p"
  by (cases pg)
     (simp_all add: page_step_def commit_def changeCheckInterval_def checkForChanges_def Let_def
        split: option.split)

lemma persist_tick_with_draft_keeps_dialog:
  assumes "hasDraft (hook p)"
  shows "showDraftDialog (page_step NewPostPage p (PersistTick getData isoA tA)) = showDraftDialog p"
  using assms
  by (simp add: page_step_def commit_def autoSaveInterval_def checkForChanges_def saveDraft_def
      Let_def split: option.split)

text \<open>
  C9. On the new-post page with a stored draft the dialog is shown after mounting.
  Discarding closes it, and the dirty-check tick leaves it closed. The persist tick that
  saves the user's edit sets \<open>hasDraft\<close>, a dependency of the dialog's effect, and the
  dialog is shown a second time in the same mount.
\<close>

theorem recovery_dialog_shown_again:
  "showDraftDialog (mount NewPostPage store_saved) = True
   \<and> showDraftDialog (run_page NewPostPage (mount NewPostPage store_saved) [DiscardDraft]) = False
   \<and> showDraftDialog (run_page NewPostPage (mount NewPostPage store_saved)
        [DiscardDraft, DirtyTick (Some fields_ab)]) = False
   \<and> showDraftDialog (run_page NewPostPage (mount NewPostPage store_saved) discard_then_autosave) = True"
  using hash_edited
  by (simp add: mount_saved run_page_def page_step_def commit_def clearDraft_def
      changeCheckInterval_def autoSaveInterval_def checkForChanges_def saveDraft_def Let_def
      discard_then_autosave_def)

end
